theory Spec2Isabelle
  imports
    Main
    "HOL-Library.Word"
    "HOL-Library.Multiset"
    "HOL-Library.Char_ord"
    "HOL-Library.List_Lexorder"
begin

unbundle bit_operations_syntax

chapter \<open>Definitions\<close>

section \<open>Ingestion: \<^verbatim>\<open>s3_upload_automation.py\<close>\<close>

subsection \<open>The vendor SFTP server\<close>

text \<open>
  \<^verbatim>\<open>download_files\<close> catches \<^verbatim>\<open>FileNotFoundError\<close> and every other
  \<^verbatim>\<open>Exception\<close> per table; both are values here. The server is what the three
  paramiko calls of the loop return: \<^verbatim>\<open>listdir\<close>, \<^verbatim>\<open>stat(...).st_mtime\<close> and
  \<^verbatim>\<open>get\<close>.
\<close>

datatype sftp_error = FileNotFoundError | SftpException

record sftp_server =
  listdir :: "string \<Rightarrow> sftp_error + string list"
  stat_mtime :: "string \<Rightarrow> sftp_error + int"
  get_file :: "string \<Rightarrow> sftp_error + unit"

text \<open>\<^verbatim>\<open>filename.endswith(suf)\<close>.\<close>

definition endswith :: "string \<Rightarrow> string \<Rightarrow> bool" where
  "endswith s suf = (length suf \<le> length s \<and> drop (length s - length suf) s = suf)"

text \<open>
  The inner loop over the directory listing: every name ending in \<^verbatim>\<open>.csv.gpg\<close> is
  stat-ed and appended, in listing order, as \<^verbatim>\<open>(filename, st_mtime)\<close>. A failing
  \<^verbatim>\<open>stat\<close> leaves the loop through the table's \<^verbatim>\<open>except\<close>.
\<close>

fun files_with_attrs ::
  "sftp_server \<Rightarrow> string \<Rightarrow> string list \<Rightarrow> sftp_error + (string \<times> int) list" where
  "files_with_attrs sftp table_path [] = Inr []"
| "files_with_attrs sftp table_path (filename # rest) =
     (if endswith filename ''.csv.gpg'' then
        (case stat_mtime sftp (table_path @ ''/'' @ filename) of
           Inl e \<Rightarrow> Inl e
         | Inr mtime \<Rightarrow>
             (case files_with_attrs sftp table_path rest of
                Inl e \<Rightarrow> Inl e
              | Inr fs \<Rightarrow> Inr ((filename, mtime) # fs)))
      else files_with_attrs sftp table_path rest)"

text \<open>
  \<^verbatim>\<open>if not files_with_attrs: continue\<close>, then
  \<^verbatim>\<open>files_with_attrs.sort(key=lambda x: x[1], reverse=True)\<close> and
  \<^verbatim>\<open>latest_file = files_with_attrs[0][0]\<close>. Python's sort is stable, also with
  \<^verbatim>\<open>reverse=True\<close>: entries with equal keys keep their listing order. That is
  the stable insertion sort \<^const>\<open>sort_key\<close> on the negated modification time.
\<close>

definition latest_file :: "(string \<times> int) list \<Rightarrow> string option" where
  "latest_file fs =
     (if fs = [] then None
      else (case sort_key (\<lambda>x. - snd x) fs of
              [] \<Rightarrow> None
            | f # _ \<Rightarrow> Some (fst f)))"

datatype table_outcome = Downloaded string | NoFiles | TableError sftp_error

definition download_table :: "sftp_server \<Rightarrow> string \<Rightarrow> string \<Rightarrow> table_outcome" where
  "download_table sftp vendor_directory table =
     (let table_path = vendor_directory @ ''/'' @ table in
      case listdir sftp table_path of
        Inl e \<Rightarrow> TableError e
      | Inr names \<Rightarrow>
          (case files_with_attrs sftp table_path names of
             Inl e \<Rightarrow> TableError e
           | Inr fs \<Rightarrow>
               (case latest_file fs of
                  None \<Rightarrow> NoFiles
                | Some latest \<Rightarrow>
                    (case get_file sftp (table_path @ ''/'' @ latest) of
                       Inl e \<Rightarrow> TableError e
                     | Inr _ \<Rightarrow> Downloaded latest))))"

text \<open>A local file: the directory it lies in and its name (\<^verbatim>\<open>file_path.name\<close>).\<close>

datatype local_path = Encrypted string | Decrypted string

fun path_name :: "local_path \<Rightarrow> string" where
  "path_name (Encrypted n) = n"
| "path_name (Decrypted n) = n"

text \<open>The loop over \<^verbatim>\<open>table_list\<close>: every outcome but a download is a \<^verbatim>\<open>continue\<close>.\<close>

fun download_loop :: "sftp_server \<Rightarrow> string \<Rightarrow> string list \<Rightarrow> local_path list" where
  "download_loop sftp vendor_directory [] = []"
| "download_loop sftp vendor_directory (table # rest) =
     (case download_table sftp vendor_directory table of
        Downloaded latest \<Rightarrow> Encrypted latest # download_loop sftp vendor_directory rest
      | NoFiles \<Rightarrow> download_loop sftp vendor_directory rest
      | TableError e \<Rightarrow> download_loop sftp vendor_directory rest)"

text \<open>
  \<^verbatim>\<open>download_files\<close>: \<^verbatim>\<open>connect_sftp\<close> re-raises a failed connection
  (\<^const>\<open>None\<close> here), which leaves \<^verbatim>\<open>download_files\<close> as an exception.
\<close>

definition download_files ::
  "sftp_server option \<Rightarrow> string \<Rightarrow> string list \<Rightarrow> sftp_error + local_path list" where
  "download_files conn vendor_directory table_list =
     (case conn of
        None \<Rightarrow> Inl SftpException
      | Some sftp \<Rightarrow> Inr (download_loop sftp vendor_directory table_list))"

subsection \<open>Decrypt, upload, trigger, clean up\<close>

text \<open>
  What the run does after the download is recorded as a list of actions, in order, so
  that "no decryption, no upload, no trigger" is a statement about that list.
\<close>

datatype action = Decrypt string | S3Upload string | GlueTrigger | Cleanup local_path

text \<open>
  The collaborators of the later phases: GnuPG (\<^verbatim>\<open>decryption_result.ok\<close>, an
  exception counting as a failure: both only log), the match of the file name against
  \<^verbatim>\<open>(\w+)_([A-Za-z]+)_\w+_(\d{4}-\d{2}-\d{2})\<close> by \<^verbatim>\<open>re.match\<close> (its groups
  \<^verbatim>\<open>vendor_code, table_name\<close> and the three parts of \<^verbatim>\<open>export_date\<close>),
  \<^verbatim>\<open>s3_client.upload_file\<close> by key, and \<^verbatim>\<open>glue_client.start_job_run\<close>.
\<close>

record ingest_env =
  sftp_connect :: "sftp_server option"
  base_directory :: string
  gpg_decrypt_ok :: "string \<Rightarrow> bool"
  filename_match :: "string \<Rightarrow> (string \<times> string \<times> string \<times> string \<times> string) option"
  s3_upload_ok :: "string \<Rightarrow> bool"
  glue_start_ok :: bool

text \<open>\<^verbatim>\<open>file_path.name.replace('.gpg', '')\<close>: every occurrence is removed.\<close>

fun strip_gpg :: "string \<Rightarrow> string" where
  "strip_gpg [] = []"
| "strip_gpg (c # cs) =
     (if take 4 (c # cs) = ''.gpg'' then strip_gpg (drop 3 cs) else c # strip_gpg cs)"

fun decrypt_files :: "ingest_env \<Rightarrow> local_path list \<Rightarrow> local_path list \<times> action list" where
  "decrypt_files env [] = ([], [])"
| "decrypt_files env (p # ps) =
     (case decrypt_files env ps of
        (decrypted, log) \<Rightarrow>
          (if gpg_decrypt_ok env (path_name p)
           then Decrypted (strip_gpg (path_name p)) # decrypted
           else decrypted,
           Decrypt (path_name p) # log))"

definition s3_key :: "string \<Rightarrow> string \<Rightarrow> string \<Rightarrow> string \<Rightarrow> string \<Rightarrow> string" where
  "s3_key table_name year month day name =
     ''raw-data/'' @ table_name @ ''/year='' @ year @ ''/month='' @ month @ ''/day='' @ day
       @ ''/'' @ name"

fun upload_to_s3 :: "ingest_env \<Rightarrow> local_path list \<Rightarrow> string list \<times> action list" where
  "upload_to_s3 env [] = ([], [])"
| "upload_to_s3 env (p # ps) =
     (case upload_to_s3 env ps of
        (uploaded, log) \<Rightarrow>
          (case filename_match env (path_name p) of
             None \<Rightarrow> (uploaded, log)
           | Some (vendor_code, table_name, year, month, day) \<Rightarrow>
               (let key = s3_key table_name year month day (path_name p) in
                (if s3_upload_ok env key then key # uploaded else uploaded,
                 S3Upload key # log))))"

definition trigger_glue_etl :: "ingest_env \<Rightarrow> string list \<Rightarrow> action list" where
  "trigger_glue_etl env uploaded_files = (if uploaded_files = [] then [] else [GlueTrigger])"

definition cleanup_local_files :: "local_path list \<Rightarrow> action list" where
  "cleanup_local_files file_paths = map Cleanup file_paths"

definition required_tables :: "string list" where
  "required_tables =
     [''Customer'', ''Vehicle'', ''VehicleSales'', ''ServiceAppointments'', ''ServiceHistory'',
      ''PartsInventory'', ''PartsSales'', ''Employee'', ''InventoryVehicle'', ''SpecialOrders'']"

text \<open>
  \<^verbatim>\<open>process_daily_exports\<close>: the returned flag and the actions of phases 2 to 5.
  An exception of phase 1 is caught by the outer \<^verbatim>\<open>except\<close> and returns \<^verbatim>\<open>False\<close>.
\<close>

definition process_daily_exports :: "ingest_env \<Rightarrow> bool \<times> action list" where
  "process_daily_exports env =
     (case download_files (sftp_connect env) (base_directory env) required_tables of
        Inl e \<Rightarrow> (False, [])
      | Inr downloaded_files \<Rightarrow>
          if downloaded_files = [] then (False, [])
          else
            (case decrypt_files env downloaded_files of
               (decrypted_files, log2) \<Rightarrow>
                 if decrypted_files = [] then (False, log2)
                 else
                   (case upload_to_s3 env decrypted_files of
                      (uploaded_files, log3) \<Rightarrow>
                        (True,
                         log2 @ log3 @ trigger_glue_etl env uploaded_files
                           @ cleanup_local_files (downloaded_files @ decrypted_files)))))"

text \<open>\<^verbatim>\<open>main\<close>: the process exit status.\<close>

definition main :: "ingest_env \<Rightarrow> nat" where
  "main env = (if fst (process_daily_exports env) then 0 else 1)"

text \<open>A server on which no table directory holds an encrypted export.\<close>

definition empty_server :: sftp_server where
  "empty_server =
     \<lparr>listdir = (\<lambda>p. Inr [''README.txt'']),
      stat_mtime = (\<lambda>p. Inr 0),
      get_file = (\<lambda>p. Inr ())\<rparr>"

definition empty_env :: ingest_env where
  "empty_env =
     \<lparr>sftp_connect = Some empty_server,
      base_directory = ''daily_exports'',
      gpg_decrypt_ok = (\<lambda>n. True),
      filename_match = (\<lambda>n. None),
      s3_upload_ok = (\<lambda>k. True),
      glue_start_ok = True\<rparr>"

text \<open>A server with two exports of one table, as in the spec's scenario A.\<close>

definition scenario_server :: sftp_server where
  "scenario_server =
     \<lparr>listdir = (\<lambda>p. Inr [''X_2024-05-01.csv.gpg'', ''notes.txt'', ''X_2024-05-02.csv.gpg'']),
      stat_mtime = (\<lambda>p. if p = ''daily_exports/X/X_2024-05-02.csv.gpg'' then Inr 200 else Inr 100),
      get_file = (\<lambda>p. Inr ())\<rparr>"

section \<open>Warehouse merge: \<^verbatim>\<open>glue_vehicle_sales_etl.py\<close>\<close>

subsection \<open>Rows and SQL comparison\<close>

text \<open>
  A row of \<^verbatim>\<open>source_data.vehicle_sales\<close>: the four columns the merge compares, the
  \<^verbatim>\<open>salesdate\<close> the cleaning query tests, and the remaining columns, which no
  statement of the merge inspects. Every column is declared without \<^verbatim>\<open>NOT NULL\<close>, so
  a value is optional (\<^const>\<open>None\<close> is SQL's \<^verbatim>\<open>NULL\<close>). \<^verbatim>\<open>rowlastupdatedutc\<close> is
  a \<^verbatim>\<open>TIMESTAMP\<close> cast from a string by \<^verbatim>\<open>ApplyMapping\<close>.
\<close>

type_synonym timestamp = int

record 'p sales_row =
  dealno :: "string option"
  custno :: "string option"
  vin :: "string option"
  salesdate :: "timestamp option"
  rowlastupdatedutc :: "timestamp option"
  other_columns :: 'p

text \<open>
  The \<^verbatim>\<open>WHERE\<close> clause of \<^verbatim>\<open>data_cleaning_sql\<close>:
  \<^verbatim>\<open>vin IS NOT NULL AND custno IS NOT NULL AND salesdate IS NOT NULL\<close>.
\<close>

definition data_cleaning :: "'p sales_row list \<Rightarrow> 'p sales_row list" where
  "data_cleaning rows =
     filter (\<lambda>r. vin r \<noteq> None \<and> custno r \<noteq> None \<and> salesdate r \<noteq> None) rows"

text \<open>
  SQL's \<^verbatim>\<open>=\<close> and \<^verbatim>\<open>AND\<close> are three-valued: a comparison with \<^verbatim>\<open>NULL\<close> is
  unknown (\<^const>\<open>None\<close>), and a \<^verbatim>\<open>WHERE\<close> clause selects a row only when it is true.
\<close>

definition sql_eq :: "'a option \<Rightarrow> 'a option \<Rightarrow> bool option" where
  "sql_eq a b = (case a of None \<Rightarrow> None | Some x \<Rightarrow> (case b of None \<Rightarrow> None | Some y \<Rightarrow> Some (x = y)))"

definition sql_and :: "bool option \<Rightarrow> bool option \<Rightarrow> bool option" where
  "sql_and a b =
     (if a = Some False \<or> b = Some False then Some False
      else if a = Some True \<and> b = Some True then Some True
      else None)"

text \<open>
  The predicate of \<^verbatim>\<open>DELETE FROM vehicle_sales USING vehicle_sales_temp WHERE ...\<close>,
  for a row \<open>s\<close> of the temp table and a row \<open>r\<close> of the target table.
\<close>

definition delete_where :: "'p sales_row \<Rightarrow> 'p sales_row \<Rightarrow> bool option" where
  "delete_where s r =
     sql_and (sql_and (sql_and (sql_eq (dealno s) (dealno r)) (sql_eq (custno s) (custno r)))
                (sql_eq (vin s) (vin r)))
       (sql_eq (rowlastupdatedutc s) (rowlastupdatedutc r))"

subsection \<open>The warehouse and the statements of the load\<close>

text \<open>The two tables; \<^const>\<open>None\<close> is a table that does not exist.\<close>

record 'p warehouse =
  vehicle_sales :: "'p sales_row list option"
  vehicle_sales_temp :: "'p sales_row list option"

datatype sql_error = UndefinedTable | DuplicateTable

definition sql_then :: "sql_error + 'a \<Rightarrow> ('a \<Rightarrow> sql_error + 'b) \<Rightarrow> sql_error + 'b" where
  "sql_then r f = (case r of Inl e \<Rightarrow> Inl e | Inr x \<Rightarrow> f x)"

text \<open>\<^verbatim>\<open>CREATE TABLE IF NOT EXISTS source_data.vehicle_sales (...)\<close>\<close>

definition create_table_if_not_exists :: "'p warehouse \<Rightarrow> sql_error + 'p warehouse" where
  "create_table_if_not_exists db =
     (case vehicle_sales db of
        None \<Rightarrow> Inr (db\<lparr>vehicle_sales := Some []\<rparr>)
      | Some t \<Rightarrow> Inr db)"

text \<open>\<^verbatim>\<open>DROP TABLE IF EXISTS source_data.vehicle_sales_temp\<close>\<close>

definition drop_temp_if_exists :: "'p warehouse \<Rightarrow> sql_error + 'p warehouse" where
  "drop_temp_if_exists db = Inr (db\<lparr>vehicle_sales_temp := None\<rparr>)"

text \<open>
  \<^verbatim>\<open>CREATE TABLE source_data.vehicle_sales_temp AS
  SELECT * FROM source_data.vehicle_sales WHERE 1=2\<close>
\<close>

definition create_temp_as_select :: "'p warehouse \<Rightarrow> sql_error + 'p warehouse" where
  "create_temp_as_select db =
     (case vehicle_sales db of
        None \<Rightarrow> Inl UndefinedTable
      | Some t \<Rightarrow>
          (case vehicle_sales_temp db of
             Some tmp \<Rightarrow> Inl DuplicateTable
           | None \<Rightarrow> Inr (db\<lparr>vehicle_sales_temp := Some (filter (\<lambda>r. (1::nat) = 2) t)\<rparr>)))"

definition preactions :: "'p warehouse \<Rightarrow> sql_error + 'p warehouse" where
  "preactions db =
     sql_then (sql_then (create_table_if_not_exists db) drop_temp_if_exists) create_temp_as_select"

text \<open>
  The write of the frame itself goes to \<^verbatim>\<open>"dbtable": "source_data.vehicle_sales_temp"\<close>:
  every row of the frame is appended to the temp table.
\<close>

definition write_frame :: "'p sales_row list \<Rightarrow> 'p warehouse \<Rightarrow> sql_error + 'p warehouse" where
  "write_frame frame db =
     (case vehicle_sales_temp db of
        None \<Rightarrow> Inl UndefinedTable
      | Some tmp \<Rightarrow> Inr (db\<lparr>vehicle_sales_temp := Some (tmp @ frame)\<rparr>))"

text \<open>
  \<^verbatim>\<open>DELETE FROM vehicle_sales USING vehicle_sales_temp WHERE ...\<close>: a target row goes
  when the predicate is true for it and some temp row.
\<close>

definition delete_using :: "'p warehouse \<Rightarrow> sql_error + 'p warehouse" where
  "delete_using db =
     (case vehicle_sales db of
        None \<Rightarrow> Inl UndefinedTable
      | Some t \<Rightarrow>
          (case vehicle_sales_temp db of
             None \<Rightarrow> Inl UndefinedTable
           | Some tmp \<Rightarrow>
               Inr (db\<lparr>vehicle_sales :=
                      Some (filter (\<lambda>r. \<not> list_ex (\<lambda>s. delete_where s r = Some True) tmp) t)\<rparr>)))"

text \<open>\<^verbatim>\<open>INSERT INTO vehicle_sales SELECT * FROM vehicle_sales_temp\<close>\<close>

definition insert_select :: "'p warehouse \<Rightarrow> sql_error + 'p warehouse" where
  "insert_select db =
     (case vehicle_sales db of
        None \<Rightarrow> Inl UndefinedTable
      | Some t \<Rightarrow>
          (case vehicle_sales_temp db of
             None \<Rightarrow> Inl UndefinedTable
           | Some tmp \<Rightarrow> Inr (db\<lparr>vehicle_sales := Some (t @ tmp)\<rparr>)))"

text \<open>\<^verbatim>\<open>DROP TABLE source_data.vehicle_sales_temp\<close>\<close>

definition drop_temp :: "'p warehouse \<Rightarrow> sql_error + 'p warehouse" where
  "drop_temp db =
     (case vehicle_sales_temp db of
        None \<Rightarrow> Inl UndefinedTable
      | Some tmp \<Rightarrow> Inr (db\<lparr>vehicle_sales_temp := None\<rparr>))"

text \<open>
  \<^verbatim>\<open>BEGIN; DELETE ...; INSERT ...; DROP ...; END;\<close>: an error of a statement aborts
  the transaction, and the caller keeps the state from before \<^verbatim>\<open>BEGIN\<close>.
\<close>

definition postactions :: "'p warehouse \<Rightarrow> sql_error + 'p warehouse" where
  "postactions db = sql_then (sql_then (delete_using db) insert_select) drop_temp"

text \<open>\<^verbatim>\<open>glueContext.write_dynamic_frame.from_options\<close>: pre-actions, the write, post-actions.\<close>

definition redshift_load :: "'p sales_row list \<Rightarrow> 'p warehouse \<Rightarrow> sql_error + 'p warehouse" where
  "redshift_load frame db = sql_then (sql_then (preactions db) (write_frame frame)) postactions"

text \<open>One run of the job after another, each with its own batch.\<close>

fun run_merges :: "'p sales_row list list \<Rightarrow> 'p warehouse \<Rightarrow> sql_error + 'p warehouse" where
  "run_merges [] db = Inr db"
| "run_merges (frame # frames) db = sql_then (redshift_load frame db) (run_merges frames)"

subsection \<open>The words of the specification\<close>

text \<open>The rows of the target table (none while the table does not exist).\<close>

definition table_rows :: "'p warehouse \<Rightarrow> 'p sales_row list" where
  "table_rows db = (case vehicle_sales db of None \<Rightarrow> [] | Some t \<Rightarrow> t)"

text \<open>The composite key \<^verbatim>\<open>(dealno, custno, vin, rowlastupdatedutc)\<close> of a row.\<close>

definition composite_key ::
  "'p sales_row \<Rightarrow> string option \<times> string option \<times> string option \<times> timestamp option" where
  "composite_key r = (dealno r, custno r, vin r, rowlastupdatedutc r)"

text \<open>A key none of whose four columns is \<^verbatim>\<open>NULL\<close>.\<close>

definition key_complete :: "'p sales_row \<Rightarrow> bool" where
  "key_complete r =
     (dealno r \<noteq> None \<and> custno r \<noteq> None \<and> vin r \<noteq> None \<and> rowlastupdatedutc r \<noteq> None)"

text \<open>At most one row per composite key.\<close>

definition key_unique :: "'p sales_row list \<Rightarrow> bool" where
  "key_unique rows = distinct (map composite_key rows)"

subsection \<open>Example rows\<close>

definition row_1 :: "string sales_row" where
  "row_1 = \<lparr>dealno = Some ''1'', custno = Some ''9'', vin = Some ''V1'', salesdate = Some 1704067200,
            rowlastupdatedutc = Some 1704067200, other_columns = ''cash''\<rparr>"

definition row_2 :: "string sales_row" where
  "row_2 = \<lparr>dealno = Some ''2'', custno = Some ''7'', vin = Some ''V2'', salesdate = Some 1704153600,
            rowlastupdatedutc = Some 1704153600, other_columns = ''lease''\<rparr>"

text \<open>Two rows with no \<^verbatim>\<open>dealno\<close>; both pass the cleaning query.\<close>

definition row_null :: "string sales_row" where
  "row_null = \<lparr>dealno = None, custno = Some ''9'', vin = Some ''V1'', salesdate = Some 1704067200,
               rowlastupdatedutc = Some 1704067200, other_columns = ''cash''\<rparr>"

definition row_null' :: "string sales_row" where
  "row_null' = \<lparr>dealno = None, custno = Some ''9'', vin = Some ''V1'', salesdate = Some 1704067200,
                rowlastupdatedutc = Some 1704067200, other_columns = ''finance''\<rparr>"

definition empty_warehouse :: "string warehouse" where
  "empty_warehouse = \<lparr>vehicle_sales = None, vehicle_sales_temp = None\<rparr>"

section \<open>Delivery: \<^verbatim>\<open>lambda_redshift_to_segment.py\<close>\<close>

subsection \<open>\<^verbatim>\<open>hashlib.md5\<close>\<close>

text \<open>
  MD5 (RFC 1321) on bytes, as \<^verbatim>\<open>hashlib.md5(b).hexdigest()\<close> computes it: the
  message is padded with \<^verbatim>\<open>0x80\<close>, zeros and its bit length as 64 bits little-endian,
  cut into blocks of sixteen little-endian 32-bit words, and every block goes through
  64 steps. A \<^typ>\<open>string\<close> stands for the bytes of \<^verbatim>\<open>str.encode()\<close>.
\<close>

type_synonym u8 = "8 word"
type_synonym u32 = "32 word"
type_synonym md5_state = "u32 \<times> u32 \<times> u32 \<times> u32"

definition md5_K :: "u32 list" where
  "md5_K =
     [0xd76aa478, 0xe8c7b756, 0x242070db, 0xc1bdceee, 0xf57c0faf, 0x4787c62a, 0xa8304613,
      0xfd469501, 0x698098d8, 0x8b44f7af, 0xffff5bb1, 0x895cd7be, 0x6b901122, 0xfd987193,
      0xa679438e, 0x49b40821, 0xf61e2562, 0xc040b340, 0x265e5a51, 0xe9b6c7aa, 0xd62f105d,
      0x02441453, 0xd8a1e681, 0xe7d3fbc8, 0x21e1cde6, 0xc33707d6, 0xf4d50d87, 0x455a14ed,
      0xa9e3e905, 0xfcefa3f8, 0x676f02d9, 0x8d2a4c8a, 0xfffa3942, 0x8771f681, 0x6d9d6122,
      0xfde5380c, 0xa4beea44, 0x4bdecfa9, 0xf6bb4b60, 0xbebfbc70, 0x289b7ec6, 0xeaa127fa,
      0xd4ef3085, 0x04881d05, 0xd9d4d039, 0xe6db99e5, 0x1fa27cf8, 0xc4ac5665, 0xf4292244,
      0x432aff97, 0xab9423a7, 0xfc93a039, 0x655b59c3, 0x8f0ccc92, 0xffeff47d, 0x85845dd1,
      0x6fa87e4f, 0xfe2ce6e0, 0xa3014314, 0x4e0811a1, 0xf7537e82, 0xbd3af235, 0x2ad7d2bb,
      0xeb86d391]"

definition md5_s :: "nat list" where
  "md5_s =
     [7, 12, 17, 22, 7, 12, 17, 22, 7, 12, 17, 22, 7, 12, 17, 22,
      5, 9, 14, 20, 5, 9, 14, 20, 5, 9, 14, 20, 5, 9, 14, 20,
      4, 11, 16, 23, 4, 11, 16, 23, 4, 11, 16, 23, 4, 11, 16, 23,
      6, 10, 15, 21, 6, 10, 15, 21, 6, 10, 15, 21, 6, 10, 15, 21]"

definition rotl32 :: "u32 \<Rightarrow> nat \<Rightarrow> u32" where
  "rotl32 x n = push_bit n x OR drop_bit (32 - n) x"

fun md5_step :: "u32 list \<Rightarrow> nat \<Rightarrow> md5_state \<Rightarrow> md5_state" where
  "md5_step M i (a, b, c, d) =
     (let f = (if i < 16 then (b AND c) OR (NOT b AND d)
               else if i < 32 then (d AND b) OR (NOT d AND c)
               else if i < 48 then b XOR c XOR d
               else c XOR (b OR NOT d));
          g = (if i < 16 then i
               else if i < 32 then (5 * i + 1) mod 16
               else if i < 48 then (3 * i + 5) mod 16
               else (7 * i) mod 16);
          f' = f + a + md5_K ! i + M ! g
      in (d, b + rotl32 f' (md5_s ! i), b, c))"

fun md5_block :: "md5_state \<Rightarrow> u32 list \<Rightarrow> md5_state" where
  "md5_block (a0, b0, c0, d0) M =
     (case fold (md5_step M) [0..<64] (a0, b0, c0, d0) of
        (a, b, c, d) \<Rightarrow> (a0 + a, b0 + b, c0 + c, d0 + d))"

definition md5_pad :: "u8 list \<Rightarrow> u8 list" where
  "md5_pad msg =
     msg @ [0x80] @ replicate ((119 - length msg mod 64) mod 64) 0
       @ map (\<lambda>k. ucast (drop_bit (8 * k) (8 * (of_nat (length msg) :: 64 word)))) [0..<8]"

fun le_words :: "u8 list \<Rightarrow> u32 list" where
  "le_words (b0 # b1 # b2 # b3 # bs) =
     (ucast b0 OR push_bit 8 (ucast b1) OR push_bit 16 (ucast b2) OR push_bit 24 (ucast b3))
       # le_words bs"
| "le_words _ = []"

definition md5_blocks :: "u32 list \<Rightarrow> u32 list list" where
  "md5_blocks ws = map (\<lambda>k. take 16 (drop (16 * k) ws)) [0..<length ws div 16]"

definition hex_digit :: "u8 \<Rightarrow> char" where
  "hex_digit n = ''0123456789abcdef'' ! unat (n AND 0x0f)"

definition hex_byte :: "u8 \<Rightarrow> string" where
  "hex_byte b = [hex_digit (drop_bit 4 b), hex_digit b]"

definition le_hex :: "u32 \<Rightarrow> string" where
  "le_hex w = concat (map (\<lambda>k. hex_byte (ucast (drop_bit (8 * k) w))) [0..<4])"

definition md5_digest :: "u8 list \<Rightarrow> md5_state" where
  "md5_digest msg =
     fold (\<lambda>M st. md5_block st M) (md5_blocks (le_words (md5_pad msg)))
       (0x67452301, 0xefcdab89, 0x98badcfe, 0x10325476)"

definition md5_hexdigest :: "string \<Rightarrow> string" where
  "md5_hexdigest s =
     (case md5_digest (map of_char s) of
        (a, b, c, d) \<Rightarrow> le_hex a @ le_hex b @ le_hex c @ le_hex d)"

subsection \<open>The delivered set in S3\<close>

text \<open>
  The object under \<^verbatim>\<open>processed_events_key\<close>: a JSON array of strings, or a body
  that \<^verbatim>\<open>json.loads\<close> or \<^verbatim>\<open>set(...)\<close> rejects. \<^verbatim>\<open>get_object\<close> answers with the
  body, with \<^verbatim>\<open>NoSuchKey\<close>, or with any other exception.
\<close>

datatype s3_body = JsonArray "string list" | NotJson

datatype s3_get = NoSuchKey | S3Exception | Body s3_body

definition s3_get_object :: "bool \<Rightarrow> s3_body option \<Rightarrow> s3_get" where
  "s3_get_object read_ok stored =
     (if \<not> read_ok then S3Exception
      else (case stored of None \<Rightarrow> NoSuchKey | Some b \<Rightarrow> Body b))"

text \<open>
  \<^verbatim>\<open>get_processed_events\<close>. A Python \<^verbatim>\<open>set\<close> is a list without repetitions here;
  its order stands for the iteration order, which Python leaves open.
\<close>

definition get_processed_events :: "s3_get \<Rightarrow> string list" where
  "get_processed_events response =
     (case response of
        Body (JsonArray processed) \<Rightarrow> remdups processed
      | Body NotJson \<Rightarrow> []
      | NoSuchKey \<Rightarrow> []
      | S3Exception \<Rightarrow> [])"

text \<open>
  \<^verbatim>\<open>mark_events_processed\<close>: \<^verbatim>\<open>processed_events.update(event_ids)\<close>, then
  \<^verbatim>\<open>put_object\<close> of the whole set; a failing put is logged and the object stays.
\<close>

definition mark_events_processed ::
  "string list \<Rightarrow> string list \<Rightarrow> bool \<Rightarrow> s3_body option \<Rightarrow> s3_body option" where
  "mark_events_processed event_ids processed_events put_ok stored =
     (if put_ok then Some (JsonArray (remdups (processed_events @ event_ids))) else stored)"

subsection \<open>The candidate query\<close>

text \<open>
  A row of \<^verbatim>\<open>marketing.validated_vehicle_sales\<close> as \<^verbatim>\<open>RealDictCursor\<close> returns it:
  the three identifying columns as text, the purchase date as a day number, and the
  remaining columns.
\<close>

type_synonym date = int

record 'p raw_record =
  raw_deal_number :: "string option"
  raw_user_id :: "string option"
  raw_vin :: "string option"
  raw_purchase_date :: "date option"
  raw_details :: 'p

text \<open>
  The query text has three variable parts: the two dates and the
  \<^verbatim>\<open>AND deal_number NOT IN ('...', '...')\<close> clause, which is only there when the
  processed set is not empty. The values of the clause are the processed identifiers
  (each quote doubled in the literal, which reads back as the identifier).
\<close>

record sales_query =
  q_start_date :: date
  q_end_date :: date
  q_not_in :: "string list option"

definition build_query :: "date \<Rightarrow> date \<Rightarrow> string list \<Rightarrow> sales_query" where
  "build_query start_date end_date processed_events =
     \<lparr>q_start_date = start_date, q_end_date = end_date,
      q_not_in = (if processed_events = [] then None else Some processed_events)\<rparr>"

text \<open>
  The \<^verbatim>\<open>WHERE\<close> clause is true for a row: both date comparisons hold (a \<^verbatim>\<open>NULL\<close>
  date compares unknown), and with an exclusion clause the deal number is not
  \<^verbatim>\<open>NULL\<close> and not in the list.
\<close>

definition query_where :: "sales_query \<Rightarrow> 'p raw_record \<Rightarrow> bool" where
  "query_where q r =
     ((case raw_purchase_date r of
         None \<Rightarrow> False
       | Some d \<Rightarrow> q_start_date q \<le> d \<and> d \<le> q_end_date q)
      \<and> (case q_not_in q of
            None \<Rightarrow> True
          | Some ids \<Rightarrow>
              (case raw_deal_number r of None \<Rightarrow> False | Some n \<Rightarrow> n \<notin> set ids)))"

text \<open>
  \<^verbatim>\<open>... WHERE ... ORDER BY purchase_date DESC LIMIT 1000\<close>. SQL leaves the order of
  rows with equal dates open; here they keep the order of the view.
\<close>

definition execute_query :: "sales_query \<Rightarrow> 'p raw_record list \<Rightarrow> 'p raw_record list" where
  "execute_query q view =
     take 1000
       (sort_key (\<lambda>r. case raw_purchase_date r of None \<Rightarrow> 0 | Some d \<Rightarrow> - d)
          (filter (query_where q) view))"

text \<open>
  \<^verbatim>\<open>get_vehicle_sales_events\<close>, given the answer of S3 to its \<^verbatim>\<open>get_object\<close> and
  the rows of the view; \<open>end_date\<close> is today's date.
\<close>

definition get_vehicle_sales_events ::
  "date \<Rightarrow> date \<Rightarrow> bool \<Rightarrow> s3_get \<Rightarrow> 'p raw_record list \<Rightarrow> 'p raw_record list" where
  "get_vehicle_sales_events start_date end_date exclude_processed response view =
     (let processed_events = (if exclude_processed then get_processed_events response else [])
      in execute_query (build_query start_date end_date processed_events) view)"

subsection \<open>Validation, identifier, envelope, transmission\<close>

record 'p cleaned_event =
  deal_number :: string
  user_id :: string
  vin :: string
  purchase_date :: "date option"
  details :: 'p

text \<open>
  \<^verbatim>\<open>clean_and_validate_event\<close>: \<^verbatim>\<open>not record.get(k)\<close> holds for a missing or
  \<^verbatim>\<open>None\<close> value and for the empty string. The remaining fields are cleaned one by
  one (\<^verbatim>\<open>clean_string_value\<close>, \<^verbatim>\<open>clean_numeric_value\<close>, neither of which raises) and
  are carried along as \<^const>\<open>details\<close>.
\<close>

definition clean_and_validate_event :: "'p raw_record \<Rightarrow> 'p cleaned_event option" where
  "clean_and_validate_event record =
     (case raw_deal_number record of
        None \<Rightarrow> None
      | Some dn \<Rightarrow>
          (case raw_user_id record of
             None \<Rightarrow> None
           | Some uid \<Rightarrow>
               (case raw_vin record of
                  None \<Rightarrow> None
                | Some v \<Rightarrow>
                    if dn = [] \<or> uid = [] \<or> v = [] then None
                    else Some \<lparr>deal_number = dn, user_id = uid, vin = v,
                               purchase_date = raw_purchase_date record,
                               details = raw_details record\<rparr>)))"

text \<open>
  \<^verbatim>\<open>generate_segment_message_id\<close>:
  \<^verbatim>\<open>f"vp_{md5(f"vehicle_purchase_{deal_number}_{vin}")}"[:50]\<close>.
\<close>

definition generate_segment_message_id :: "'p cleaned_event \<Rightarrow> string" where
  "generate_segment_message_id event_data =
     take 50
       (''vp_'' @ md5_hexdigest (''vehicle_purchase_'' @ deal_number event_data @ ''_''
                                   @ vin event_data))"

text \<open>
  The envelope. Its timestamp is noon of the purchase date, or the current time when
  there is no purchase date.
\<close>

datatype event_timestamp = NoonOf date | Now

record 'p segment_event =
  messageId :: string
  userId :: string
  timestamp :: event_timestamp
  properties :: "'p cleaned_event"

definition convert_to_segment_track_event :: "'p cleaned_event \<Rightarrow> 'p segment_event option" where
  "convert_to_segment_track_event event_data =
     Some \<lparr>messageId = generate_segment_message_id event_data,
           userId = user_id event_data,
           timestamp = (case purchase_date event_data of None \<Rightarrow> Now | Some d \<Rightarrow> NoonOf d),
           properties = event_data\<rparr>"

text \<open>
  \<^verbatim>\<open>send_event_to_segment\<close>: one POST; success is status 200, anything else and any
  exception is a failure.
\<close>

datatype http_result = HttpStatus nat | HttpException

definition send_event_to_segment :: "('p segment_event \<Rightarrow> http_result) \<Rightarrow> 'p segment_event \<Rightarrow> bool" where
  "send_event_to_segment segment event =
     (case segment event of HttpStatus code \<Rightarrow> code = 200 | HttpException \<Rightarrow> False)"

subsection \<open>The delivery loop\<close>

text \<open>
  The three variables of the loop, and a trace of every call of
  \<^verbatim>\<open>send_event_to_segment\<close> with its result.
\<close>

record 'p loop_state =
  successful_count :: nat
  failed_count :: nat
  processed_event_ids :: "string list"
  sent :: "('p segment_event \<times> bool) list"

definition initial_state :: "'p loop_state" where
  "initial_state = \<lparr>successful_count = 0, failed_count = 0, processed_event_ids = [], sent = []\<rparr>"

text \<open>The body of \<^verbatim>\<open>for event_record in batch\<close>.\<close>

definition process_record ::
  "('p segment_event \<Rightarrow> http_result) \<Rightarrow> 'p raw_record \<Rightarrow> 'p loop_state \<Rightarrow> 'p loop_state" where
  "process_record segment event_record st =
     (case clean_and_validate_event event_record of
        None \<Rightarrow> st\<lparr>failed_count := failed_count st + 1\<rparr>
      | Some cleaned_event \<Rightarrow>
          (case convert_to_segment_track_event cleaned_event of
             None \<Rightarrow> st\<lparr>failed_count := failed_count st + 1\<rparr>
           | Some segment_event \<Rightarrow>
               if send_event_to_segment segment segment_event
               then st\<lparr>successful_count := successful_count st + 1,
                       processed_event_ids := processed_event_ids st @ [deal_number cleaned_event],
                       sent := sent st @ [(segment_event, True)]\<rparr>
               else st\<lparr>failed_count := failed_count st + 1,
                       sent := sent st @ [(segment_event, False)]\<rparr>))"

definition process_batch ::
  "('p segment_event \<Rightarrow> http_result) \<Rightarrow> 'p raw_record list \<Rightarrow> 'p loop_state \<Rightarrow> 'p loop_state" where
  "process_batch segment batch st = fold (process_record segment) batch st"

text \<open>
  \<^verbatim>\<open>range(0, len(events), batch_size)\<close>: a step of zero raises \<^verbatim>\<open>ValueError\<close>, a
  negative step gives the empty range.
\<close>

definition batch_starts :: "nat \<Rightarrow> int \<Rightarrow> nat list option" where
  "batch_starts n batch_size =
     (if batch_size = 0 then None
      else if batch_size < 0 then Some []
      else Some (map (\<lambda>k. k * nat batch_size) [0..<(n + nat batch_size - 1) div nat batch_size]))"

text \<open>The outer loop: \<^verbatim>\<open>batch = events[i:i + batch_size]\<close> for every start \<open>i\<close>.\<close>

definition process_batches ::
  "('p segment_event \<Rightarrow> http_result) \<Rightarrow> int \<Rightarrow> 'p raw_record list \<Rightarrow> 'p loop_state
     \<Rightarrow> 'p loop_state option" where
  "process_batches segment batch_size events st =
     (case batch_starts (length events) batch_size of
        None \<Rightarrow> None
      | Some starts \<Rightarrow>
          Some (fold (\<lambda>i. process_batch segment (take (nat batch_size) (drop i events))) starts st))"

text \<open>
  \<^verbatim>\<open>if max_events and len(events) > max_events: events = events[:max_events]\<close>;
  a negative bound cuts from the end, as Python's slice does.
\<close>

definition limit_events :: "int option \<Rightarrow> 'a list \<Rightarrow> 'a list" where
  "limit_events max_events events =
     (case max_events of
        None \<Rightarrow> events
      | Some m \<Rightarrow>
          if m \<noteq> 0 \<and> int (length events) > m
          then (if 0 \<le> m then take (nat m) events else take (length events - nat (- m)) events)
          else events)"

subsection \<open>The run\<close>

text \<open>
  What a run meets: whether the warehouse connects and answers, the rows of the view,
  today's date, the stored object, whether each of the two reads and the put of S3
  succeed, and the answers of the Segment endpoint.
\<close>

record 'p delivery_env =
  connect_ok :: bool
  query_ok :: bool
  view :: "'p raw_record list"
  today :: date
  stored :: "s3_body option"
  read_ok_at_query :: bool
  read_ok_at_commit :: bool
  put_ok :: bool
  segment :: "'p segment_event \<Rightarrow> http_result"

text \<open>
  \<^verbatim>\<open>process_vehicle_purchase_events\<close>: the status code of the response, the final
  loop state, and the stored object after the run. The processed set is read a second
  time before the commit. A run whose event list is cut to nothing fails in the final
  \<^verbatim>\<open>successful_count/len(events)\<close> and answers 500.
\<close>

definition process_vehicle_purchase_events ::
  "'p delivery_env \<Rightarrow> date \<Rightarrow> int \<Rightarrow> int option \<Rightarrow> nat \<times> 'p loop_state \<times> s3_body option" where
  "process_vehicle_purchase_events env start_date batch_size max_events =
     (if \<not> connect_ok env \<or> \<not> query_ok env then (500, initial_state, stored env)
      else
        (let events = get_vehicle_sales_events start_date (today env) True
                        (s3_get_object (read_ok_at_query env) (stored env)) (view env)
         in if events = [] then (200, initial_state, stored env)
            else
              (let events = limit_events max_events events
               in case process_batches (segment env) batch_size events initial_state of
                    None \<Rightarrow> (500, initial_state, stored env)
                  | Some st \<Rightarrow>
                      (let stored' =
                             (if processed_event_ids st \<noteq> [] then
                                mark_events_processed (processed_event_ids st)
                                  (get_processed_events
                                     (s3_get_object (read_ok_at_commit env) (stored env)))
                                  (put_ok env) (stored env)
                              else stored env)
                       in (if events = [] then 500 else 200, st, stored')))))"

subsection \<open>The words of the specification, and example data\<close>

text \<open>The delivered set that a stored object holds.\<close>

definition delivered_ids :: "s3_body option \<Rightarrow> string set" where
  "delivered_ids obj = (case obj of Some (JsonArray ids) \<Rightarrow> set ids | _ \<Rightarrow> {})"

text \<open>A required identifying field is missing: absent, \<^verbatim>\<open>None\<close> or empty.\<close>

definition missing_required :: "'p raw_record \<Rightarrow> bool" where
  "missing_required r =
     (raw_deal_number r \<in> {None, Some []} \<or> raw_user_id r \<in> {None, Some []}
      \<or> raw_vin r \<in> {None, Some []})"

definition rec_1 :: "unit raw_record" where
  "rec_1 = \<lparr>raw_deal_number = Some ''1'', raw_user_id = Some ''u1'', raw_vin = Some ''V1'',
            raw_purchase_date = Some 19800, raw_details = ()\<rparr>"

definition rec_2 :: "unit raw_record" where
  "rec_2 = \<lparr>raw_deal_number = Some ''2'', raw_user_id = Some ''u2'', raw_vin = Some ''V2'',
            raw_purchase_date = Some 19801, raw_details = ()\<rparr>"

definition rec_bad :: "unit raw_record" where
  "rec_bad = \<lparr>raw_deal_number = Some ''3'', raw_user_id = None, raw_vin = Some ''V3'',
              raw_purchase_date = Some 19802, raw_details = ()\<rparr>"

definition ev_1 :: "unit cleaned_event" where
  "ev_1 = \<lparr>deal_number = ''1'', user_id = ''u1'', vin = ''V1'', purchase_date = Some 19800,
           details = ()\<rparr>"

definition ev_1' :: "unit cleaned_event" where
  "ev_1' = \<lparr>deal_number = ''1'', user_id = ''u7'', vin = ''V1'', purchase_date = None,
            details = ()\<rparr>"

text \<open>
  A run that finds deal 1 delivered and deals 1 and 2 in the view, with an endpoint that
  accepts everything; and the same run with a failing read before the commit.
\<close>

definition env_ok :: "unit delivery_env" where
  "env_ok =
     \<lparr>connect_ok = True, query_ok = True, view = [rec_1, rec_2], today = 20000,
      stored = Some (JsonArray [''1'']), read_ok_at_query = True, read_ok_at_commit = True,
      put_ok = True, segment = (\<lambda>e. HttpStatus 200)\<rparr>"

definition env_lost :: "unit delivery_env" where
  "env_lost = env_ok\<lparr>read_ok_at_commit := False\<rparr>"

subsection \<open>The loop invariant\<close>

text \<open>
  What holds of the loop state throughout, for a loop over records of \<open>rs\<close>: the
  identifiers are the deal numbers of the events sent with success, in order; the
  success counter counts them; every traced call has the endpoint's answer as its result
  and the cleaned form of some record as its properties.
\<close>

definition loop_inv ::
  "('p segment_event \<Rightarrow> http_result) \<Rightarrow> 'p raw_record set \<Rightarrow> 'p loop_state \<Rightarrow> bool" where
  "loop_inv seg rs st \<longleftrightarrow>
     processed_event_ids st = map (\<lambda>x. deal_number (properties (fst x))) (filter snd (sent st))
     \<and> successful_count st = length (filter snd (sent st))
     \<and> (\<forall>x\<in>set (sent st). snd x = (seg (fst x) = HttpStatus 200)
            \<and> (\<exists>r\<in>rs. clean_and_validate_event r = Some (properties (fst x))))"


chapter \<open>Theorems\<close>

section \<open>Snapshot selection\<close>

lemma sort_key_hd_stable:
  fixes f :: "'a \<Rightarrow> int"
  assumes "sort_key f xs = y # ys"
  shows "y \<in> set xs" and "\<forall>x\<in>set xs. f y \<le> f x" and "hd (filter (\<lambda>x. f x = f y) xs) = y"
proof -
  have s: "set (sort_key f xs) = set xs" by simp
  show "y \<in> set xs" using s assms by (metis list.set_intros(1))
  have "sorted (map f (sort_key f xs))" by (rule sorted_sort_key)
  then have "\<forall>x\<in>set ys. f y \<le> f x" using assms by simp
  then show "\<forall>x\<in>set xs. f y \<le> f x" using s assms by (metis order_refl set_ConsD)
  have "filter (\<lambda>x. f x = f y) xs = filter (\<lambda>x. f x = f y) (sort_key f xs)"
    by (rule sort_key_stable [symmetric])
  then show "hd (filter (\<lambda>x. f x = f y) xs) = y" using assms by simp
qed

lemma latest_file_None: "latest_file fs = None \<longleftrightarrow> fs = []"
proof
  assume n: "latest_file fs = None"
  show "fs = []"
  proof (rule ccontr)
    assume ne: "fs \<noteq> []"
    then have "sort_key (\<lambda>x. - snd x) fs \<noteq> []"
      by (metis length_sort length_0_conv)
    then show False using n ne by (auto simp: latest_file_def split: list.splits)
  qed
next
  assume "fs = []" then show "latest_file fs = None" by (simp add: latest_file_def)
qed

lemma latest_file_Some:
  assumes "latest_file fs = Some f"
  shows "\<exists>m. (f, m) \<in> set fs \<and> (\<forall>x\<in>set fs. snd x \<le> m) \<and> hd (filter (\<lambda>x. snd x = m) fs) = (f, m)"
proof -
  from assms obtain y ys where sk: "sort_key (\<lambda>x. - snd x) fs = y # ys" and f: "f = fst y"
    by (auto simp: latest_file_def split: if_splits list.splits)
  note h = sort_key_hd_stable [OF sk]
  have "(f, snd y) \<in> set fs" using h(1) f by simp
  moreover have "\<forall>x\<in>set fs. snd x \<le> snd y" using h(2) by simp
  moreover have "hd (filter (\<lambda>x. snd x = snd y) fs) = (f, snd y)" using h(3) f by simp
  ultimately show ?thesis by blast
qed

text \<open>
  Claim C4, as the code has it. For a table whose listing gives the candidates \<open>fs\<close>:
  with no candidate the selection is \<^const>\<open>None\<close>, the table's outcome is
  \<^const>\<open>NoFiles\<close> and the loop goes on with the remaining tables; otherwise exactly
  one file is selected, it is a candidate with the greatest modification time, and among
  the candidates with that time it is the one the directory listing gave first. The
  file name plays no part in the choice.
\<close>
theorem snapshot_selection:
  assumes "listdir sftp (vd @ ''/'' @ table) = Inr names"
    and "files_with_attrs sftp (vd @ ''/'' @ table) names = Inr fs"
  shows "(fs = [] \<longrightarrow>
            latest_file fs = None \<and> download_table sftp vd table = NoFiles
            \<and> download_loop sftp vd (table # rest) = download_loop sftp vd rest)
         \<and> (fs \<noteq> [] \<longrightarrow>
              (\<exists>f m. latest_file fs = Some f \<and> (f, m) \<in> set fs
                     \<and> (\<forall>x\<in>set fs. snd x \<le> m)
                     \<and> hd (filter (\<lambda>x. snd x = m) fs) = (f, m)))"
proof (intro conjI impI)
  assume e: "fs = []"
  show n: "latest_file fs = None" using e by (simp add: latest_file_def)
  show t: "download_table sftp vd table = NoFiles"
    using assms n by (simp add: download_table_def)
  show "download_loop sftp vd (table # rest) = download_loop sftp vd rest"
    using t by simp
next
  assume ne: "fs \<noteq> []"
  then obtain f where f: "latest_file fs = Some f"
    using latest_file_None [of fs] by (cases "latest_file fs") auto
  from latest_file_Some [OF f] f
  show "\<exists>f m. latest_file fs = Some f \<and> (f, m) \<in> set fs \<and> (\<forall>x\<in>set fs. snd x \<le> m)
          \<and> hd (filter (\<lambda>x. snd x = m) fs) = (f, m)"
    by blast
qed

text \<open>Scenario A of the specification: the newer of the two exports is selected.\<close>

lemma scenario_listing:
  "listdir scenario_server (''daily_exports'' @ ''/'' @ ''X'')
     = Inr [''X_2024-05-01.csv.gpg'', ''notes.txt'', ''X_2024-05-02.csv.gpg'']"
  by (simp add: scenario_server_def)

lemma scenario_attrs:
  "files_with_attrs scenario_server (''daily_exports'' @ ''/'' @ ''X'')
       [''X_2024-05-01.csv.gpg'', ''notes.txt'', ''X_2024-05-02.csv.gpg'']
     = Inr [(''X_2024-05-01.csv.gpg'', 100), (''X_2024-05-02.csv.gpg'', 200)]"
  by (simp add: scenario_server_def endswith_def)

theorem snapshot_selection_witness:
  "latest_file [(''X_2024-05-01.csv.gpg'', 100), (''X_2024-05-02.csv.gpg'', 200)]
     = Some ''X_2024-05-02.csv.gpg''
   \<and> (\<exists>f m. latest_file [(''X_2024-05-01.csv.gpg'', 100), (''X_2024-05-02.csv.gpg'', 200)] = Some f
          \<and> (f, m) \<in> set [(''X_2024-05-01.csv.gpg'', 100), (''X_2024-05-02.csv.gpg'', 200)]
          \<and> (\<forall>x\<in>set [(''X_2024-05-01.csv.gpg'', 100::int), (''X_2024-05-02.csv.gpg'', 200)]. snd x \<le> m)
          \<and> hd (filter (\<lambda>x. snd x = m) [(''X_2024-05-01.csv.gpg'', 100), (''X_2024-05-02.csv.gpg'', 200)]) = (f, m))"
  using snapshot_selection [OF scenario_listing scenario_attrs, of "[]"]
  by (simp add: latest_file_def)

text \<open>
  Claim C4 as stated asks for the lexicographically greatest name among candidates of
  equal time. Two exports with the same modification time, listed in this order: the
  first one listed is selected, and its name is the smaller one.
\<close>

theorem tie_break_counterexample:
  "latest_file [(''X_2024-05-01.csv.gpg'', 200), (''X_2024-05-02.csv.gpg'', 200)]
     = Some ''X_2024-05-01.csv.gpg''
   \<and> ''X_2024-05-01.csv.gpg'' < ''X_2024-05-02.csv.gpg''"
  by (simp add: latest_file_def)

section \<open>The zero-download gate\<close>

lemma download_loop_Nil:
  "download_loop sftp vd ts = [] \<longleftrightarrow> (\<forall>t\<in>set ts. \<forall>f. download_table sftp vd t \<noteq> Downloaded f)"
  by (induction ts) (auto split: table_outcome.splits)

text \<open>
  Claim C9. If the download phase yields no file (every table skipped or failed, or the
  connection itself failed), \<^const>\<open>process_daily_exports\<close> returns \<^const>\<open>False\<close>
  with an empty list of actions: nothing is decrypted, nothing is uploaded, the Glue job
  is not triggered; \<^const>\<open>main\<close> exits with status 1.
\<close>
theorem no_download_aborts:
  assumes "\<forall>files. download_files (sftp_connect env) (base_directory env) required_tables = Inr files
             \<longrightarrow> files = []"
  shows "process_daily_exports env = (False, []) \<and> main env = 1"
proof -
  have "process_daily_exports env = (False, [])"
    using assms by (auto simp: process_daily_exports_def split: sum.splits)
  then show ?thesis by (simp add: main_def)
qed

lemma empty_env_downloads:
  "download_files (sftp_connect empty_env) (base_directory empty_env) required_tables = Inr []"
  by (simp add: empty_env_def empty_server_def download_files_def required_tables_def
        download_table_def endswith_def latest_file_def)

theorem no_download_aborts_witness:
  "download_files (sftp_connect empty_env) (base_directory empty_env) required_tables = Inr []
   \<and> process_daily_exports empty_env = (False, []) \<and> main empty_env = 1"
  using no_download_aborts [of empty_env] empty_env_downloads by simp

section \<open>The merge\<close>

lemma delete_where_True:
  "delete_where s r = Some True \<longleftrightarrow> key_complete s \<and> composite_key s = composite_key r"
  by (cases "dealno s"; cases "dealno r"; cases "custno s"; cases "custno r";
      cases "sales_row.vin s"; cases "sales_row.vin r";
      cases "rowlastupdatedutc s"; cases "rowlastupdatedutc r")
     (auto simp: delete_where_def sql_eq_def sql_and_def key_complete_def composite_key_def)

lemma preactions_result:
  "preactions db = Inr \<lparr>vehicle_sales = Some (table_rows db), vehicle_sales_temp = Some []\<rparr>"
  by (cases "vehicle_sales db")
     (simp_all add: preactions_def sql_then_def create_table_if_not_exists_def
        drop_temp_if_exists_def create_temp_as_select_def table_rows_def)

lemma postactions_result:
  "postactions \<lparr>vehicle_sales = Some t, vehicle_sales_temp = Some tmp\<rparr>
     = Inr \<lparr>vehicle_sales = Some (filter (\<lambda>r. \<not> (\<exists>s\<in>set tmp. delete_where s r = Some True)) t @ tmp),
            vehicle_sales_temp = None\<rparr>"
  by (simp add: postactions_def sql_then_def delete_using_def insert_select_def drop_temp_def
        list_ex_iff)

lemma redshift_load_result:
  "redshift_load frame db
     = Inr \<lparr>vehicle_sales =
              Some (filter (\<lambda>r. \<not> (\<exists>s\<in>set frame. delete_where s r = Some True)) (table_rows db) @ frame),
            vehicle_sales_temp = None\<rparr>"
  by (simp add: redshift_load_def preactions_result sql_then_def write_frame_def postactions_result)

text \<open>
  Claim C1, as the code has it. For every prior state of the warehouse and every frame,
  the load succeeds, leaves no temp table, and the target table holds, as a bag of rows,
  the old rows minus those for which some incoming row has all four key columns
  non-\<^verbatim>\<open>NULL\<close> and equal to theirs, plus the incoming rows.
\<close>
theorem merge_content:
  "\<exists>db'. redshift_load frame db = Inr db' \<and> vehicle_sales_temp db' = None
     \<and> mset (table_rows db')
         = filter_mset (\<lambda>r. \<not> (\<exists>s\<in>set frame. key_complete s \<and> composite_key s = composite_key r))
             (mset (table_rows db))
           + mset frame"
  by (simp add: redshift_load_result table_rows_def delete_where_True)

theorem merge_content_witness:
  "\<exists>db'. redshift_load [row_2] \<lparr>vehicle_sales = Some [row_1], vehicle_sales_temp = None\<rparr> = Inr db'
     \<and> mset (table_rows db') = {#row_1, row_2#}"
  using merge_content [of "[row_2]" "\<lparr>vehicle_sales = Some [row_1], vehicle_sales_temp = None\<rparr>"]
  by (auto simp: table_rows_def key_complete_def composite_key_def row_1_def row_2_def)

text \<open>
  Claim C1 as stated removes every old row whose composite key equals that of an incoming
  row. An old row and an incoming row with the same composite key, whose \<^verbatim>\<open>dealno\<close>
  is \<^verbatim>\<open>NULL\<close>: the comparison is unknown, the old row is kept, and the table holds
  both. The incoming row passes the cleaning query.
\<close>

theorem merge_null_key_counterexample:
  "redshift_load [row_null'] \<lparr>vehicle_sales = Some [row_null], vehicle_sales_temp = None\<rparr>
     = Inr \<lparr>vehicle_sales = Some [row_null, row_null'], vehicle_sales_temp = None\<rparr>
   \<and> composite_key row_null' = composite_key row_null
   \<and> row_null \<noteq> row_null'
   \<and> data_cleaning [row_null'] = [row_null']"
  by (simp add: redshift_load_result table_rows_def delete_where_True key_complete_def
        composite_key_def row_null_def row_null'_def data_cleaning_def)

text \<open>
  Claim C2, as the code has it. For a frame all of whose rows have a complete key, the
  first load succeeds and loading the same frame again gives the same warehouse: the
  same rows, hence the same row count.
\<close>
theorem merge_idempotent:
  assumes "\<forall>r\<in>set frame. key_complete r"
  shows "\<exists>db1. redshift_load frame db = Inr db1 \<and> redshift_load frame db1 = Inr db1"
proof -
  let ?keep = "\<lambda>r. \<not> (\<exists>s\<in>set frame. delete_where s r = Some True)"
  have "filter ?keep frame = []"
    using assms by (auto simp: filter_empty_conv delete_where_True)
  then show ?thesis
    by (simp add: redshift_load_result table_rows_def)
qed

theorem merge_idempotent_witness:
  "key_complete row_1 \<and> key_complete row_2
   \<and> (\<exists>db1. redshift_load [row_1, row_2] empty_warehouse = Inr db1
          \<and> redshift_load [row_1, row_2] db1 = Inr db1)"
proof -
  have h: "\<forall>r\<in>set [row_1, row_2]. key_complete r"
    by (simp add: key_complete_def row_1_def row_2_def)
  show ?thesis using h merge_idempotent [OF h, of empty_warehouse] by simp
qed

text \<open>
  Claim C2 as stated, for every batch: a frame of one row without \<^verbatim>\<open>dealno\<close>,
  loaded twice into an empty warehouse, leaves one row after the first load and two after
  the second.
\<close>

theorem remerge_null_key_counterexample:
  "redshift_load [row_null] empty_warehouse
     = Inr \<lparr>vehicle_sales = Some [row_null], vehicle_sales_temp = None\<rparr>
   \<and> redshift_load [row_null] \<lparr>vehicle_sales = Some [row_null], vehicle_sales_temp = None\<rparr>
     = Inr \<lparr>vehicle_sales = Some [row_null, row_null], vehicle_sales_temp = None\<rparr>
   \<and> data_cleaning [row_null] = [row_null]"
  by (simp add: redshift_load_result table_rows_def delete_where_True key_complete_def
        row_null_def data_cleaning_def empty_warehouse_def)

section \<open>Key uniqueness\<close>

lemma redshift_load_key_unique:
  assumes u: "key_unique (table_rows db)" and f: "key_unique frame"
    and c: "\<forall>r\<in>set frame. key_complete r"
  shows "\<exists>db'. redshift_load frame db = Inr db' \<and> key_unique (table_rows db')"
proof -
  let ?keep = "\<lambda>r. \<not> (\<exists>s\<in>set frame. delete_where s r = Some True)"
  have 1: "distinct (map composite_key (filter ?keep (table_rows db)))"
    using u unfolding key_unique_def by (rule distinct_map_filter)
  have 3: "\<forall>r\<in>set (filter ?keep (table_rows db)). \<forall>s\<in>set frame. composite_key r \<noteq> composite_key s"
  proof (intro ballI notI)
    fix r s
    assume r: "r \<in> set (filter ?keep (table_rows db))" and s: "s \<in> set frame"
      and k: "composite_key r = composite_key s"
    from s c k have "delete_where s r = Some True" by (simp add: delete_where_True)
    with r s show False by auto
  qed
  have 2: "composite_key ` set (filter ?keep (table_rows db)) \<inter> composite_key ` set frame = {}"
  proof (rule equals0I)
    fix k
    assume "k \<in> composite_key ` set (filter ?keep (table_rows db)) \<inter> composite_key ` set frame"
    then have a: "k \<in> composite_key ` set (filter ?keep (table_rows db))"
      and b: "k \<in> composite_key ` set frame" by blast+
    from a obtain r where r: "r \<in> set (filter ?keep (table_rows db))" "k = composite_key r"
      by (rule imageE)
    from b obtain s where s: "s \<in> set frame" "k = composite_key s"
      by (rule imageE)
    from 3 r s show False by blast
  qed
  have "key_unique (filter ?keep (table_rows db) @ frame)"
    using 1 2 f by (simp only: key_unique_def map_append distinct_append set_map simp_thms)
  then show ?thesis by (simp add: redshift_load_result table_rows_def)
qed

lemma run_merges_key_unique:
  assumes "key_unique (table_rows db)"
    and "\<forall>frame\<in>set frames. key_unique frame \<and> (\<forall>r\<in>set frame. key_complete r)"
  shows "\<exists>db'. run_merges frames db = Inr db' \<and> key_unique (table_rows db')"
  using assms
proof (induction frames arbitrary: db)
  case Nil
  then show ?case by simp
next
  case (Cons frame frames)
  from Cons.prems obtain db1 where 1: "redshift_load frame db = Inr db1" "key_unique (table_rows db1)"
    using redshift_load_key_unique [of db frame] by auto
  from Cons.IH [OF 1(2)] Cons.prems(2) 1(1) show ?case by (simp add: sql_then_def)
qed

text \<open>
  Claim C3, as the code has it. Starting from a table with at most one row per composite
  key, after every prefix of a sequence of loads the table has at most one row per
  composite key, provided that every frame has pairwise distinct, complete keys.
\<close>

theorem merges_preserve_key_unique:
  assumes "key_unique (table_rows db)"
    and "\<forall>frame\<in>set frames. key_unique frame \<and> (\<forall>r\<in>set frame. key_complete r)"
  shows "\<forall>n. \<exists>db'. run_merges (take n frames) db = Inr db' \<and> key_unique (table_rows db')"
proof
  fix n
  have "\<forall>frame\<in>set (take n frames). key_unique frame \<and> (\<forall>r\<in>set frame. key_complete r)"
    using assms(2) by (meson in_set_takeD)
  with assms(1) show "\<exists>db'. run_merges (take n frames) db = Inr db' \<and> key_unique (table_rows db')"
    by (rule run_merges_key_unique)
qed

theorem merges_preserve_key_unique_witness:
  "key_unique (table_rows empty_warehouse)
   \<and> key_unique [row_1] \<and> key_unique [row_1, row_2]
   \<and> key_complete row_1 \<and> key_complete row_2
   \<and> (\<exists>db'. run_merges [[row_1], [row_1, row_2]] empty_warehouse = Inr db'
          \<and> key_unique (table_rows db'))"
proof -
  have a: "key_unique (table_rows empty_warehouse)"
    by (simp add: key_unique_def table_rows_def empty_warehouse_def)
  have b: "\<forall>frame\<in>set [[row_1], [row_1, row_2]]. key_unique frame \<and> (\<forall>r\<in>set frame. key_complete r)"
    by (simp add: key_unique_def key_complete_def composite_key_def row_1_def row_2_def)
  from merges_preserve_key_unique [OF a b] have
    "\<exists>db'. run_merges (take 2 [[row_1], [row_1, row_2]]) empty_warehouse = Inr db'
       \<and> key_unique (table_rows db')" ..
  with a b show ?thesis by simp
qed

text \<open>
  Claim C3 as stated includes frames with a repeated composite key. Such a frame, loaded
  into an empty warehouse: every row of the temp table is inserted, and the table holds
  two rows with one key.
\<close>

theorem repeated_key_counterexample:
  "key_unique (table_rows empty_warehouse)
   \<and> redshift_load [row_1, row_1] empty_warehouse
       = Inr \<lparr>vehicle_sales = Some [row_1, row_1], vehicle_sales_temp = None\<rparr>
   \<and> \<not> key_unique [row_1, row_1]
   \<and> data_cleaning [row_1, row_1] = [row_1, row_1]"
  by (simp add: redshift_load_result table_rows_def key_unique_def empty_warehouse_def
        data_cleaning_def row_1_def)

section \<open>The message identifier\<close>

lemma length_le_hex: "length (le_hex w) = 8"
  by (simp add: le_hex_def hex_byte_def length_concat comp_def sum_list_triv)

lemma length_md5_hexdigest: "length (md5_hexdigest s) = 32"
  by (simp add: md5_hexdigest_def length_le_hex split: prod.split)

lemma md5_example: "md5_hexdigest ''vehicle_purchase_1_V1'' = ''378f0894bc4782ffb6f088909ffb5b5b''"
  by code_simp

text \<open>
  Claim C7. \<^const>\<open>generate_segment_message_id\<close> is a function of the event alone:
  two events with the same deal number and the same VIN get the same identifier,
  whatever their other fields; the identifier has 35 characters (\<^verbatim>\<open>vp_\<close> and 32
  hexadecimal digits), within the bound of 50.
\<close>

theorem message_id_deterministic:
  "(deal_number e1 = deal_number e2 \<and> cleaned_event.vin e1 = cleaned_event.vin e2
      \<longrightarrow> generate_segment_message_id e1 = generate_segment_message_id e2)
   \<and> length (generate_segment_message_id e1) = 35
   \<and> length (generate_segment_message_id e1) \<le> 50"
  by (simp add: generate_segment_message_id_def length_md5_hexdigest)

theorem message_id_deterministic_witness:
  "deal_number ev_1 = deal_number ev_1' \<and> cleaned_event.vin ev_1 = cleaned_event.vin ev_1'
   \<and> ev_1 \<noteq> ev_1'
   \<and> generate_segment_message_id ev_1 = generate_segment_message_id ev_1'
   \<and> generate_segment_message_id ev_1 = ''vp_378f0894bc4782ffb6f088909ffb5b5b''
   \<and> length (generate_segment_message_id ev_1) = 35"
proof -
  have k: "deal_number ev_1 = deal_number ev_1' \<and> cleaned_event.vin ev_1 = cleaned_event.vin ev_1'"
    by (simp add: ev_1_def ev_1'_def)
  have i: "generate_segment_message_id ev_1 = ''vp_378f0894bc4782ffb6f088909ffb5b5b''"
    by (simp add: generate_segment_message_id_def ev_1_def md5_example)
  have n: "ev_1 \<noteq> ev_1'" by (simp add: ev_1_def ev_1'_def)
  note t = message_id_deterministic [of ev_1 ev_1']
  from t k have e: "generate_segment_message_id ev_1 = generate_segment_message_id ev_1'"
    by blast
  from t have l: "length (generate_segment_message_id ev_1) = 35" by blast
  from k n e i l show ?thesis by blast
qed

section \<open>The candidate query\<close>

lemma execute_query_where:
  "r \<in> set (execute_query q rows) \<Longrightarrow> r \<in> set rows \<and> query_where q r"
  unfolding execute_query_def by (auto dest: in_set_takeD)

lemma query_excludes_processed:
  assumes "r \<in> set (get_vehicle_sales_events start_date end_date True response rows)"
    and "raw_deal_number r = Some d"
  shows "d \<notin> set (get_processed_events response)"
proof (cases "get_processed_events response = []")
  case True
  then show ?thesis by simp
next
  case False
  with assms(1) have "query_where
      \<lparr>q_start_date = start_date, q_end_date = end_date,
       q_not_in = Some (get_processed_events response)\<rparr> r"
    by (auto simp: get_vehicle_sales_events_def build_query_def dest: execute_query_where)
  with assms(2) show ?thesis by (simp add: query_where_def)
qed

lemma clean_deal_number:
  "clean_and_validate_event r = Some c \<Longrightarrow> raw_deal_number r = Some (deal_number c)"
  by (auto simp: clean_and_validate_event_def split: option.splits if_splits)

section \<open>The delivery loop\<close>

lemma send_200: "send_event_to_segment seg e = (seg e = HttpStatus 200)"
  by (simp add: send_event_to_segment_def split: http_result.split)

lemma loop_inv_initial: "loop_inv seg rs initial_state"
  by (simp add: loop_inv_def initial_state_def)

lemma loop_inv_mono: "loop_inv seg rs st \<Longrightarrow> rs \<subseteq> rs' \<Longrightarrow> loop_inv seg rs' st"
  unfolding loop_inv_def by blast

lemma loop_inv_record:
  assumes "loop_inv seg rs st" and "r \<in> rs"
  shows "loop_inv seg rs (process_record seg r st)"
proof (cases "clean_and_validate_event r")
  case None
  with assms(1) show ?thesis by (simp add: process_record_def loop_inv_def)
next
  case (Some c)
  with assms show ?thesis
    by (auto simp: process_record_def loop_inv_def convert_to_segment_track_event_def send_200)
qed

lemma loop_inv_batch:
  "loop_inv seg rs st \<Longrightarrow> set batch \<subseteq> rs \<Longrightarrow> loop_inv seg rs (process_batch seg batch st)"
  unfolding process_batch_def
  by (induction batch arbitrary: st) (simp_all add: loop_inv_record)

lemma loop_inv_fold_batches:
  "loop_inv seg (set events) st \<Longrightarrow>
   loop_inv seg (set events)
     (fold (\<lambda>i. process_batch seg (take n (drop i events))) starts st)"
proof (induction starts arbitrary: st)
  case Nil
  then show ?case by simp
next
  case (Cons i starts)
  have "set (take n (drop i events)) \<subseteq> set events"
    by (meson in_set_dropD in_set_takeD subsetI)
  with Cons.prems have "loop_inv seg (set events) (process_batch seg (take n (drop i events)) st)"
    by (rule loop_inv_batch)
  then show ?case using Cons.IH by simp
qed

lemma loop_inv_batches:
  "process_batches seg batch_size events initial_state = Some st \<Longrightarrow> loop_inv seg (set events) st"
  by (auto simp: process_batches_def loop_inv_fold_batches loop_inv_initial split: option.splits)

lemma set_limit_events: "set (limit_events m xs) \<subseteq> set xs"
  by (auto simp: limit_events_def split: option.splits dest: in_set_takeD)

text \<open>The three outcomes of a run.\<close>

lemma run_shape:
  assumes run: "process_vehicle_purchase_events env start_date batch_size max_events = (code, st, obj)"
  shows "(st = initial_state \<and> obj = stored env)
         \<or> (\<exists>events.
               set events \<subseteq> set (get_vehicle_sales_events start_date (today env) True
                                    (s3_get_object (read_ok_at_query env) (stored env)) (view env))
               \<and> process_batches (segment env) batch_size events initial_state = Some st
               \<and> obj = (if processed_event_ids st \<noteq> [] then
                           mark_events_processed (processed_event_ids st)
                             (get_processed_events
                                (s3_get_object (read_ok_at_commit env) (stored env)))
                             (put_ok env) (stored env)
                         else stored env))"
proof -
  define ev0 where "ev0 = get_vehicle_sales_events start_date (today env) True
                            (s3_get_object (read_ok_at_query env) (stored env)) (view env)"
  define events where "events = limit_events max_events ev0"
  have sub: "set events \<subseteq> set ev0" unfolding events_def by (rule set_limit_events)
  show ?thesis
  proof (cases "\<not> connect_ok env \<or> \<not> query_ok env \<or> ev0 = []")
    case True
    with run have "st = initial_state \<and> obj = stored env"
      unfolding process_vehicle_purchase_events_def ev0_def Let_def
      by (auto split: if_splits)
    then show ?thesis ..
  next
    case False
    show ?thesis
    proof (cases "process_batches (segment env) batch_size events initial_state")
      case None
      with run False have "st = initial_state \<and> obj = stored env"
        unfolding process_vehicle_purchase_events_def ev0_def events_def Let_def
        by (simp split: if_splits)
      then show ?thesis ..
    next
      case (Some st')
      with run False have "st = st'" and
        "obj = (if processed_event_ids st' \<noteq> [] then
                  mark_events_processed (processed_event_ids st')
                    (get_processed_events (s3_get_object (read_ok_at_commit env) (stored env)))
                    (put_ok env) (stored env)
                else stored env)"
        unfolding process_vehicle_purchase_events_def ev0_def events_def Let_def
        by (auto split: if_splits)
      with Some sub show ?thesis unfolding ev0_def by blast
    qed
  qed
qed

lemma run_inv:
  assumes "process_vehicle_purchase_events env start_date batch_size max_events = (code, st, obj)"
  shows "loop_inv (segment env)
           (set (get_vehicle_sales_events start_date (today env) True
                   (s3_get_object (read_ok_at_query env) (stored env)) (view env))) st"
proof -
  from run_shape [OF assms] show ?thesis
  proof (elim disjE exE conjE)
    assume "st = initial_state"
    then show ?thesis by (simp add: loop_inv_initial)
  next
    fix events
    assume s: "set events \<subseteq> set (get_vehicle_sales_events start_date (today env) True
                                    (s3_get_object (read_ok_at_query env) (stored env)) (view env))"
      and p: "process_batches (segment env) batch_size events initial_state = Some st"
    from p have "loop_inv (segment env) (set events) st" by (rule loop_inv_batches)
    then show ?thesis using s by (rule loop_inv_mono)
  qed
qed


text \<open>
  Claim C5, as the code has it. The identifier the query excludes is the deal number:
  every record the candidate query returns has a deal number that is not in the loaded
  set; with a non-empty loaded set the exclusion is a clause of the query itself; and in
  a run no event is handed to the publisher whose deal number is in the set loaded for
  the query.
\<close>
theorem exclusion_by_deal_number:
  "(\<forall>r\<in>set (get_vehicle_sales_events start_date end_date True response rows).
      \<forall>d. raw_deal_number r = Some d \<longrightarrow> d \<notin> set (get_processed_events response))
   \<and> (get_processed_events response \<noteq> [] \<longrightarrow>
        q_not_in (build_query start_date end_date (get_processed_events response))
          = Some (get_processed_events response))
   \<and> (\<forall>x\<in>set (sent (fst (snd (process_vehicle_purchase_events env start_date batch_size max_events)))).
        deal_number (properties (fst x))
          \<notin> set (get_processed_events (s3_get_object (read_ok_at_query env) (stored env))))"
proof (intro conjI ballI allI impI)
  fix r d
  assume "r \<in> set (get_vehicle_sales_events start_date end_date True response rows)"
    and "raw_deal_number r = Some d"
  then show "d \<notin> set (get_processed_events response)" by (rule query_excludes_processed)
next
  assume "get_processed_events response \<noteq> []"
  then show "q_not_in (build_query start_date end_date (get_processed_events response))
               = Some (get_processed_events response)"
    by (simp add: build_query_def)
next
  fix x
  let ?run = "process_vehicle_purchase_events env start_date batch_size max_events"
  let ?response = "s3_get_object (read_ok_at_query env) (stored env)"
  assume x: "x \<in> set (sent (fst (snd ?run)))"
  have "?run = (fst ?run, fst (snd ?run), snd (snd ?run))" by simp
  then have "loop_inv (segment env)
      (set (get_vehicle_sales_events start_date (today env) True ?response (view env)))
      (fst (snd ?run))"
    by (rule run_inv)
  with x obtain r where
    r: "r \<in> set (get_vehicle_sales_events start_date (today env) True ?response (view env))"
    and c: "clean_and_validate_event r = Some (properties (fst x))"
    unfolding loop_inv_def by blast
  from c have "raw_deal_number r = Some (deal_number (properties (fst x)))"
    by (rule clean_deal_number)
  with r show "deal_number (properties (fst x)) \<notin> set (get_processed_events ?response)"
    by (rule query_excludes_processed)
qed

lemmas run_defs =
  process_vehicle_purchase_events_def get_vehicle_sales_events_def s3_get_object_def
  get_processed_events_def build_query_def execute_query_def query_where_def
  limit_events_def process_batches_def batch_starts_def process_batch_def process_record_def
  clean_and_validate_event_def convert_to_segment_track_event_def send_event_to_segment_def
  initial_state_def mark_events_processed_def rec_1_def rec_2_def rec_bad_def

lemma env_ok_run:
  "fst (process_vehicle_purchase_events env_ok 19000 100 None) = 200
   \<and> map (\<lambda>x. deal_number (properties (fst x)))
        (sent (fst (snd (process_vehicle_purchase_events env_ok 19000 100 None)))) = [''2'']
   \<and> snd (snd (process_vehicle_purchase_events env_ok 19000 100 None))
       = Some (JsonArray [''1'', ''2''])"
  by (simp add: run_defs env_ok_def)

lemma env_lost_run:
  "fst (process_vehicle_purchase_events env_lost 19000 100 None) = 200
   \<and> map (\<lambda>x. deal_number (properties (fst x)))
        (sent (fst (snd (process_vehicle_purchase_events env_lost 19000 100 None)))) = [''2'']
   \<and> snd (snd (process_vehicle_purchase_events env_lost 19000 100 None))
       = Some (JsonArray [''2''])"
  by (simp add: run_defs env_ok_def env_lost_def)


theorem exclusion_by_deal_number_witness:
  "get_vehicle_sales_events 19000 20000 True (Body (JsonArray [''1''])) [rec_1, rec_2] = [rec_2]
   \<and> raw_deal_number rec_2 = Some ''2''
   \<and> ''2'' \<notin> set (get_processed_events (Body (JsonArray [''1''])))
   \<and> map (\<lambda>x. deal_number (properties (fst x)))
        (sent (fst (snd (process_vehicle_purchase_events env_ok 19000 100 None)))) = [''2'']"
proof -
  have q: "get_vehicle_sales_events 19000 20000 True (Body (JsonArray [''1''])) [rec_1, rec_2] = [rec_2]"
    by (simp add: run_defs)
  have d: "raw_deal_number rec_2 = Some ''2''" by (simp add: rec_2_def)
  from exclusion_by_deal_number
         [of 19000 20000 "Body (JsonArray [''1''])" "[rec_1, rec_2]" env_ok 100 None] q d
  have "''2'' \<notin> set (get_processed_events (Body (JsonArray [''1''])))" by simp
  with q d env_ok_run show ?thesis by blast
qed

text \<open>
  Claim C5 as stated is about the derived identifier, the message id. A loaded set that
  holds the message id of deal 1 with VIN V1: the query excludes by deal number, returns
  that record, and its derived identifier is in the loaded set.
\<close>

theorem message_id_in_set_counterexample:
  "get_vehicle_sales_events 19000 20000 True
       (Body (JsonArray [''vp_378f0894bc4782ffb6f088909ffb5b5b''])) [rec_1] = [rec_1]
   \<and> clean_and_validate_event rec_1 = Some ev_1
   \<and> generate_segment_message_id ev_1 = ''vp_378f0894bc4782ffb6f088909ffb5b5b''
   \<and> generate_segment_message_id ev_1
       \<in> set (get_processed_events (Body (JsonArray [''vp_378f0894bc4782ffb6f088909ffb5b5b''])))"
proof -
  have i: "generate_segment_message_id ev_1 = ''vp_378f0894bc4782ffb6f088909ffb5b5b''"
    by (simp add: generate_segment_message_id_def ev_1_def md5_example)
  have q: "get_vehicle_sales_events 19000 20000 True
       (Body (JsonArray [''vp_378f0894bc4782ffb6f088909ffb5b5b''])) [rec_1] = [rec_1]"
    by (simp add: run_defs)
  have c: "clean_and_validate_event rec_1 = Some ev_1"
    by (simp add: clean_and_validate_event_def rec_1_def ev_1_def)
  have m: "''vp_378f0894bc4782ffb6f088909ffb5b5b''
       \<in> set (get_processed_events (Body (JsonArray [''vp_378f0894bc4782ffb6f088909ffb5b5b''])))"
    by (simp add: get_processed_events_def)
  from i q c m show ?thesis by simp
qed

section \<open>The commit of the delivered set\<close>

text \<open>
  What a run guarantees: the identifiers it commits are the deal numbers of the events
  whose delivery returned 200; with at least one of them and a successful put the stored
  set becomes the union of the set read before the commit and these identifiers,
  otherwise the stored object is unchanged; and when the read before the commit does not
  fail, no stored identifier is lost.
\<close>

lemma delivered_set_commit:
  assumes run: "process_vehicle_purchase_events env start_date batch_size max_events = (code, st, obj)"
  shows "processed_event_ids st = map (\<lambda>x. deal_number (properties (fst x))) (filter snd (sent st))
         \<and> (\<forall>x\<in>set (sent st). snd x = (segment env (fst x) = HttpStatus 200))
         \<and> (if processed_event_ids st \<noteq> [] \<and> put_ok env
             then delivered_ids obj
                    = set (get_processed_events (s3_get_object (read_ok_at_commit env) (stored env)))
                      \<union> set (processed_event_ids st)
             else obj = stored env)
         \<and> (read_ok_at_commit env \<longrightarrow> delivered_ids (stored env) \<subseteq> delivered_ids obj)"
proof -
  from run_inv [OF run] have
    1: "processed_event_ids st = map (\<lambda>x. deal_number (properties (fst x))) (filter snd (sent st))"
    and 2: "\<forall>x\<in>set (sent st). snd x = (segment env (fst x) = HttpStatus 200)"
    unfolding loop_inv_def by blast+
  let ?loaded = "get_processed_events (s3_get_object (read_ok_at_commit env) (stored env))"
  have i: "st = initial_state \<Longrightarrow> processed_event_ids st = []"
    by (simp add: initial_state_def)
  have 3: "if processed_event_ids st \<noteq> [] \<and> put_ok env
           then delivered_ids obj = set ?loaded \<union> set (processed_event_ids st)
           else obj = stored env"
    using run_shape [OF run] i
    by (auto simp: mark_events_processed_def delivered_ids_def)
  have l: "read_ok_at_commit env \<Longrightarrow> delivered_ids (stored env) \<subseteq> set ?loaded"
    by (auto simp: delivered_ids_def s3_get_object_def get_processed_events_def
          split: option.splits s3_body.splits)
  have 4: "read_ok_at_commit env \<longrightarrow> delivered_ids (stored env) \<subseteq> delivered_ids obj"
  proof (cases "processed_event_ids st \<noteq> [] \<and> put_ok env")
    case True
    with 3 l show ?thesis by auto
  next
    case False
    with 3 show ?thesis by auto
  qed
  from 1 2 3 4 show ?thesis by blast
qed

lemma delivered_set_commit_example:
  "snd (snd (process_vehicle_purchase_events env_ok 19000 100 None)) = Some (JsonArray [''1'', ''2''])
   \<and> processed_event_ids (fst (snd (process_vehicle_purchase_events env_ok 19000 100 None)))
       = map (\<lambda>x. deal_number (properties (fst x)))
           (filter snd (sent (fst (snd (process_vehicle_purchase_events env_ok 19000 100 None)))))
   \<and> delivered_ids (stored env_ok)
       \<subseteq> delivered_ids (snd (snd (process_vehicle_purchase_events env_ok 19000 100 None)))"
proof -
  let ?run = "process_vehicle_purchase_events env_ok 19000 100 None"
  have p: "?run = (fst ?run, fst (snd ?run), snd (snd ?run))" by simp
  have r: "read_ok_at_commit env_ok" by (simp add: env_ok_def)
  from delivered_set_commit [OF p] r env_ok_run show ?thesis by blast
qed

text \<open>
  Claim C6 at a run whose read before the commit fails: deal 1 is stored as delivered,
  deal 2 is delivered with success, \<^verbatim>\<open>get_object\<close> raises before the commit and
  \<^verbatim>\<open>put_object\<close> succeeds. The stored set after the run is \<open>{2}\<close>: identifier 1
  is gone, where the claim has the set grow monotonically and never be pruned.
\<close>

theorem failed_reread_drops_ids:
  "snd (snd (process_vehicle_purchase_events env_lost 19000 100 None)) = Some (JsonArray [''2''])
   \<and> ''1'' \<in> delivered_ids (stored env_lost)
   \<and> ''1'' \<notin> delivered_ids (snd (snd (process_vehicle_purchase_events env_lost 19000 100 None)))"
  using env_lost_run by (simp add: delivered_ids_def env_lost_def env_ok_def)

text \<open>The stored set after that run, as a set.\<close>

theorem failed_reread_drops_ids_witness:
  "delivered_ids (stored env_lost) = {''1''}
   \<and> delivered_ids (snd (snd (process_vehicle_purchase_events env_lost 19000 100 None))) = {''2''}"
  using failed_reread_drops_ids by (simp add: delivered_ids_def env_lost_def env_ok_def)


section \<open>Batches\<close>

lemma process_batch_append:
  "process_batch seg (xs @ ys) st = process_batch seg ys (process_batch seg xs st)"
  by (simp add: process_batch_def)

lemma fold_batches_take:
  "fold (\<lambda>k. process_batch seg (take b (drop (k * b) events))) [0..<m] st
     = process_batch seg (take (m * b) events) st"
proof (induction m)
  case 0
  then show ?case by (simp add: process_batch_def)
next
  case (Suc m)
  have "Suc m * b = m * b + b" by simp
  then have "take (Suc m * b) events = take (m * b) events @ take b (drop (m * b) events)"
    by (simp only: take_add)
  then show ?case using Suc by (simp add: process_batch_append)
qed

lemma ceil_div_covers:
  fixes n b :: nat
  assumes "0 < b"
  shows "n \<le> (n + b - 1) div b * b"
proof -
  have "(n + b - 1) div b * b + (n + b - 1) mod b = n + b - 1" by simp
  moreover have "(n + b - 1) mod b < b" using assms by simp
  ultimately show ?thesis by linarith
qed

lemma process_batches_flat:
  assumes "0 < batch_size"
  shows "process_batches seg batch_size events st = Some (process_batch seg events st)"
proof -
  let ?b = "nat batch_size"
  have b: "0 < ?b" using assms by simp
  have "fold (\<lambda>i. process_batch seg (take ?b (drop i events)))
          (map (\<lambda>k. k * ?b) [0..<(length events + ?b - 1) div ?b]) st
        = process_batch seg (take ((length events + ?b - 1) div ?b * ?b) events) st"
    by (simp add: fold_map comp_def fold_batches_take)
  also have "\<dots> = process_batch seg events st"
    using ceil_div_covers [OF b, of "length events"] by simp
  finally show ?thesis using assms by (simp add: process_batches_def batch_starts_def)
qed

lemma missing_required_None:
  "missing_required r \<longleftrightarrow> clean_and_validate_event r = None"
  by (auto simp: missing_required_def clean_and_validate_event_def split: option.splits)

lemma process_record_failed_commute:
  "process_record seg x (st\<lparr>failed_count := failed_count st + 1\<rparr>)
     = (process_record seg x st)\<lparr>failed_count := failed_count (process_record seg x st) + 1\<rparr>"
  by (simp add: process_record_def split: option.splits)

lemma process_batch_failed_commute:
  "process_batch seg xs (st\<lparr>failed_count := failed_count st + 1\<rparr>)
     = (process_batch seg xs st)\<lparr>failed_count := failed_count (process_batch seg xs st) + 1\<rparr>"
proof (induction xs arbitrary: st)
  case Nil
  then show ?case by (simp add: process_batch_def)
next
  case (Cons x xs)
  have "process_batch seg (x # xs) (st\<lparr>failed_count := failed_count st + 1\<rparr>)
          = process_batch seg xs (process_record seg x (st\<lparr>failed_count := failed_count st + 1\<rparr>))"
    by (simp add: process_batch_def)
  also have "\<dots> = process_batch seg xs
      ((process_record seg x st)\<lparr>failed_count := failed_count (process_record seg x st) + 1\<rparr>)"
    by (simp only: process_record_failed_commute)
  also have "\<dots> = (process_batch seg xs (process_record seg x st))
      \<lparr>failed_count := failed_count (process_batch seg xs (process_record seg x st)) + 1\<rparr>"
    by (rule Cons.IH)
  finally show ?case by (simp add: process_batch_def)
qed

text \<open>
  Claim C8. A record with a required identifying field missing is rejected by the
  validation; its turn in the loop only adds one to \<^const>\<open>failed_count\<close>, so nothing
  is sent for it and no identifier is added; and the whole loop over a list with such a
  record gives the state of the loop over the list without it, with
  \<^const>\<open>failed_count\<close> one higher: same events sent, same results, same identifiers.
\<close>
theorem missing_field_rejected:
  assumes m: "missing_required r" and b: "0 < batch_size"
  shows "clean_and_validate_event r = None
         \<and> process_record seg r st = st\<lparr>failed_count := failed_count st + 1\<rparr>
         \<and> process_batches seg batch_size (pre @ r # post) st
             = map_option (\<lambda>s. s\<lparr>failed_count := failed_count s + 1\<rparr>)
                 (process_batches seg batch_size (pre @ post) st)"
proof -
  from m have 1: "clean_and_validate_event r = None" by (simp add: missing_required_None)
  then have 2: "process_record seg r st' = st'\<lparr>failed_count := failed_count st' + 1\<rparr>" for st'
    by (simp add: process_record_def)
  have "process_batch seg (pre @ r # post) st
          = process_batch seg post (process_record seg r (process_batch seg pre st))"
    by (simp add: process_batch_def)
  also have "\<dots> = process_batch seg post
      ((process_batch seg pre st)\<lparr>failed_count := failed_count (process_batch seg pre st) + 1\<rparr>)"
    by (simp only: 2)
  also have "\<dots> = (process_batch seg post (process_batch seg pre st))
      \<lparr>failed_count := failed_count (process_batch seg post (process_batch seg pre st)) + 1\<rparr>"
    by (rule process_batch_failed_commute)
  finally have 3: "process_batch seg (pre @ r # post) st
      = (process_batch seg (pre @ post) st)
          \<lparr>failed_count := failed_count (process_batch seg (pre @ post) st) + 1\<rparr>"
    by (simp add: process_batch_append)
  from 1 2 3 show ?thesis by (simp add: process_batches_flat [OF b])
qed

theorem missing_field_rejected_witness:
  "missing_required rec_bad
   \<and> clean_and_validate_event rec_bad = None
   \<and> process_batches (\<lambda>e. HttpStatus 200) 1 [rec_1, rec_bad, rec_2] initial_state
       = map_option (\<lambda>s. s\<lparr>failed_count := failed_count s + 1\<rparr>)
           (process_batches (\<lambda>e. HttpStatus 200) 1 [rec_1, rec_2] initial_state)
   \<and> map_option (\<lambda>s. (successful_count s, failed_count s, processed_event_ids s))
        (process_batches (\<lambda>e. HttpStatus 200) 1 [rec_1, rec_2] initial_state)
       = Some (2, 0, [''1'', ''2''])"
proof -
  have m: "missing_required rec_bad" by (simp add: missing_required_def rec_bad_def)
  have b: "(0::int) < 1" by simp
  have e: "map_option (\<lambda>s. (successful_count s, failed_count s, processed_event_ids s))
        (process_batches (\<lambda>e. HttpStatus 200) 1 [rec_1, rec_2] (initial_state :: unit loop_state))
       = Some (2, 0, [''1'', ''2''])"
    by (simp add: process_batches_flat run_defs)
  from missing_field_rejected [OF m b, of "\<lambda>e. HttpStatus 200" initial_state "[rec_1]" "[rec_2]"] m e
  show ?thesis by simp
qed

section \<open>A failed read of the delivered set\<close>

text \<open>
  Claim C10. When \<^verbatim>\<open>get_object\<close> answers with \<^verbatim>\<open>NoSuchKey\<close>, with any other
  exception, or with a body that does not parse, \<^const>\<open>get_processed_events\<close> returns
  the empty set; the query then has no exclusion clause and equals the query that
  excludes nothing, so every record of the view within the date range (and the page of
  1000) is a candidate, whatever the stored set holds.
\<close>
theorem failed_read_is_empty_set:
  assumes "response = NoSuchKey \<or> response = S3Exception \<or> response = Body NotJson"
  shows "get_processed_events response = []
         \<and> q_not_in (build_query start_date end_date (get_processed_events response)) = None
         \<and> get_vehicle_sales_events start_date end_date True response rows
             = get_vehicle_sales_events start_date end_date False response rows
         \<and> (\<forall>r\<in>set rows.
              length rows \<le> 1000 \<longrightarrow>
              (\<exists>d. raw_purchase_date r = Some d \<and> start_date \<le> d \<and> d \<le> end_date) \<longrightarrow>
              r \<in> set (get_vehicle_sales_events start_date end_date True response rows))"
proof -
  from assms have 1: "get_processed_events response = []"
    by (auto simp: get_processed_events_def)
  then have 2: "q_not_in (build_query start_date end_date (get_processed_events response)) = None"
    by (simp add: build_query_def)
  from 1 have 3: "get_vehicle_sales_events start_date end_date True response rows
             = get_vehicle_sales_events start_date end_date False response rows"
    by (simp add: get_vehicle_sales_events_def)
  have 4: "r \<in> set (get_vehicle_sales_events start_date end_date True response rows)"
    if r: "r \<in> set rows" and n: "length rows \<le> 1000"
      and d: "\<exists>d. raw_purchase_date r = Some d \<and> start_date \<le> d \<and> d \<le> end_date" for r
  proof -
    let ?q = "build_query start_date end_date []"
    from d have "query_where ?q r" by (auto simp: query_where_def build_query_def)
    with r have "r \<in> set (filter (query_where ?q) rows)" by simp
    moreover have "length (filter (query_where ?q) rows) \<le> 1000"
      using n length_filter_le [of "query_where ?q" rows] by linarith
    ultimately show ?thesis
      using 1 by (simp add: get_vehicle_sales_events_def execute_query_def)
  qed
  from 1 2 3 4 show ?thesis by blast
qed

theorem failed_read_is_empty_set_witness:
  "get_processed_events (s3_get_object False (Some (JsonArray [''1'']))) = []
   \<and> ''1'' \<in> delivered_ids (Some (JsonArray [''1'']))
   \<and> raw_deal_number rec_1 = Some ''1''
   \<and> rec_1 \<in> set (get_vehicle_sales_events 19000 20000 True
                     (s3_get_object False (Some (JsonArray [''1'']))) [rec_1, rec_2])"
proof -
  have a: "s3_get_object False (Some (JsonArray [''1''])) = NoSuchKey
           \<or> s3_get_object False (Some (JsonArray [''1''])) = S3Exception
           \<or> s3_get_object False (Some (JsonArray [''1''])) = Body NotJson"
    by (simp add: s3_get_object_def)
  have d: "\<exists>d. raw_purchase_date rec_1 = Some d \<and> 19000 \<le> d \<and> d \<le> 20000"
    by (simp add: rec_1_def)
  have i: "''1'' \<in> delivered_ids (Some (JsonArray [''1'']))" by (simp add: delivered_ids_def)
  have n: "raw_deal_number rec_1 = Some ''1''" by (simp add: rec_1_def)
  note t = failed_read_is_empty_set [OF a, of 19000 20000 "[rec_1, rec_2]"]
  from t have e: "get_processed_events (s3_get_object False (Some (JsonArray [''1'']))) = []"
    by blast
  from t have all: "\<forall>r\<in>set [rec_1, rec_2].
      length [rec_1, rec_2] \<le> 1000 \<longrightarrow>
      (\<exists>d. raw_purchase_date r = Some d \<and> 19000 \<le> d \<and> d \<le> 20000) \<longrightarrow>
      r \<in> set (get_vehicle_sales_events 19000 20000 True
                 (s3_get_object False (Some (JsonArray [''1'']))) [rec_1, rec_2])"
    by blast
  have mem: "rec_1 \<in> set [rec_1, rec_2]" by simp
  have len: "length [rec_1, rec_2] \<le> 1000" by simp
  from all mem len d have c: "rec_1 \<in> set (get_vehicle_sales_events 19000 20000 True
                     (s3_get_object False (Some (JsonArray [''1'']))) [rec_1, rec_2])"
    by blast
  from e i n c show ?thesis by blast
qed

end
